theory Spec2Isabelle
  imports Main
begin

section \<open>Exceptions (rcv\_votes/exceptions.py)\<close>

text \<open>
  Every exception the collection pipeline can see is a value. \<open>APIError\<close> carries its
  optional \<open>status_code\<close>; \<open>RequestException\<close> is the transport fault of the
  \<open>requests\<close> library; \<open>OtherException\<close> stands for any other Python exception
  (an \<open>IndexError\<close>, a \<open>TypeError\<close>, ...).
\<close>

datatype error =
    APIError "int option"
  | ValidationError
  | ScrapingError
  | ConfigurationError
  | RequestException
  | OtherException

fun is_api_error :: "error \<Rightarrow> bool" where
  "is_api_error (APIError code) = True"
| "is_api_error e = False"

section \<open>Python strings\<close>

text \<open>
  Strings are lists of characters; the model covers ASCII text, where Python's
  \<open>\d\<close>, \<open>\s\<close>, \<open>str.lower\<close>, \<open>str.upper\<close> and \<open>str.strip\<close> are the
  functions below.
\<close>

definition is_digit :: "char \<Rightarrow> bool" where
  "is_digit c = (c \<in> set ''0123456789'')"

definition is_ascii_letter :: "char \<Rightarrow> bool" where
  "is_ascii_letter c =
     (c \<in> set ''abcdefghijklmnopqrstuvwxyzABCDEFGHIJKLMNOPQRSTUVWXYZ'')"

definition is_space :: "char \<Rightarrow> bool" where
  "is_space c =
     (c \<in> set [CHR '' '', CHR 0x09, CHR 0x0A, CHR 0x0B, CHR 0x0C, CHR 0x0D,
                CHR 0x1C, CHR 0x1D, CHR 0x1E, CHR 0x1F])"

definition lower_char :: "char \<Rightarrow> char" where
  "lower_char c =
     (case map_of (zip ''ABCDEFGHIJKLMNOPQRSTUVWXYZ'' ''abcdefghijklmnopqrstuvwxyz'') c of
        Some l \<Rightarrow> l | None \<Rightarrow> c)"

definition upper_char :: "char \<Rightarrow> char" where
  "upper_char c =
     (case map_of (zip ''abcdefghijklmnopqrstuvwxyz'' ''ABCDEFGHIJKLMNOPQRSTUVWXYZ'') c of
        Some u \<Rightarrow> u | None \<Rightarrow> c)"

definition lower :: "string \<Rightarrow> string" where
  "lower s = map lower_char s"

definition upper :: "string \<Rightarrow> string" where
  "upper s = map upper_char s"

definition strip :: "string \<Rightarrow> string" where
  "strip s = rev (dropWhile is_space (rev (dropWhile is_space s)))"

text \<open>\<open>str.zfill(width)\<close>: zeros on the left, after a leading sign.\<close>

definition zfill :: "nat \<Rightarrow> string \<Rightarrow> string" where
  "zfill width s =
     (if width \<le> length s then s
      else case s of
             c # cs \<Rightarrow>
               (if c = CHR ''+'' \<or> c = CHR ''-''
                then c # replicate (width - length s) CHR ''0'' @ cs
                else replicate (width - length s) CHR ''0'' @ s)
           | [] \<Rightarrow> replicate width CHR ''0'')"

text \<open>\<open>int(s)\<close> of a string of decimal digits.\<close>

definition digit_val :: "char \<Rightarrow> nat" where
  "digit_val c =
     (case map_of (zip ''0123456789'' [0, 1, 2, 3, 4, 5, 6, 7, 8, 9]) c of
        Some d \<Rightarrow> d | None \<Rightarrow> 0)"

definition int_of_digits :: "string \<Rightarrow> nat" where
  "int_of_digits s = foldl (\<lambda>n c. 10 * n + digit_val c) 0 s"

section \<open>Regular expressions (the fragment of \<open>re\<close> the sources use)\<close>

text \<open>
  Every pattern of the sources is a sequence of literals and of greedy repetitions of one
  character class, some of them captured as groups. \<open>Rep captured cls lo hi\<close> is
  \<open>cls{lo,hi}\<close> (\<open>hi = None\<close>: unbounded), \<open>Dollar\<close> is \<open>$\<close>. Matching
  backtracks as Python's does: a repetition takes as many characters as it can and gives
  them back one at a time while the rest of the pattern fails. \<open>ic\<close> is
  \<open>re.IGNORECASE\<close>.
\<close>

datatype re_item =
    Lit string
  | Rep bool "char \<Rightarrow> bool" nat "nat option"
  | Dollar

fun first_some :: "('a \<Rightarrow> 'b option) \<Rightarrow> 'a list \<Rightarrow> 'b option" where
  "first_some f [] = None"
| "first_some f (x # xs) = (case f x of Some y \<Rightarrow> Some y | None \<Rightarrow> first_some f xs)"

lemma first_some_cong [fundef_cong]:
  "xs = ys \<Longrightarrow> (\<And>x. x \<in> set ys \<Longrightarrow> f x = g x) \<Longrightarrow> first_some f xs = first_some g ys"
proof -
  assume eq: "xs = ys" and fg: "\<And>x. x \<in> set ys \<Longrightarrow> f x = g x"
  from fg have "first_some f ys = first_some g ys"
    by (induction ys) (simp_all split: option.splits)
  with eq show ?thesis by simp
qed

definition lit_matches :: "bool \<Rightarrow> string \<Rightarrow> string \<Rightarrow> bool" where
  "lit_matches ic l s =
     (length l \<le> length s \<and>
      (if ic then lower (take (length l) s) = lower l else take (length l) s = l))"

fun re_match_here :: "bool \<Rightarrow> re_item list \<Rightarrow> string \<Rightarrow> string list option" where
  "re_match_here ic [] s = Some []"
| "re_match_here ic (Lit l # r) s =
     (if lit_matches ic l s then re_match_here ic r (drop (length l) s) else None)"
| "re_match_here ic (Dollar # r) s =
     (if s = [] \<or> s = [CHR 0x0A] then re_match_here ic r s else None)"
| "re_match_here ic (Rep captured cls lo hi # r) s =
     (let avail = length (takeWhile cls s);
          top = (case hi of None \<Rightarrow> avail | Some h \<Rightarrow> min h avail)
      in first_some
           (\<lambda>k. map_option (\<lambda>gs. if captured then take k s # gs else gs)
                  (re_match_here ic r (drop k s)))
           (rev [lo ..< Suc top]))"

text \<open>\<open>re.search\<close>: the leftmost position where the pattern matches, with its groups.\<close>

fun re_search :: "bool \<Rightarrow> re_item list \<Rightarrow> string \<Rightarrow> string list option" where
  "re_search ic p [] = re_match_here ic p []"
| "re_search ic p (c # cs) =
     (case re_match_here ic p (c # cs) of
        Some gs \<Rightarrow> Some gs
      | None \<Rightarrow> re_search ic p cs)"

section \<open>Display-URL derivation\<close>

text \<open>\<open>r'https://clerk\.house\.gov/evs/(\d{4})/roll(\d+)\.xml'\<close>\<close>

definition rcv_pattern :: "re_item list" where
  "rcv_pattern =
     [Lit ''https://clerk.house.gov/evs/'', Rep True is_digit 4 (Some 4),
      Lit ''/roll'', Rep True is_digit 1 None, Lit ''.xml'']"

text \<open>\<open>ClerkHouseGovScraper._generate_rcv_url\<close> (web\_scraper.py): the strict derivation.\<close>

definition generate_rcv_url :: "string \<Rightarrow> error + string" where
  "generate_rcv_url source_data_url =
     (if source_data_url = [] then Inl ValidationError
      else case re_search False rcv_pattern source_data_url of
             None \<Rightarrow> Inl ValidationError
           | Some (year # roll_number # gs) \<Rightarrow>
               Inr (''https://clerk.house.gov/Votes/'' @ year @ zfill 3 roll_number)
           | Some gs \<Rightarrow> Inl OtherException)"

text \<open>
  \<open>VoteCollector._generate_roll_call_url\<close> (vote\_collector.py): the orchestrator's
  derivation. The source URL is the fallback, both when the pattern does not match and
  when the body raises.
\<close>

definition generate_roll_call_url :: "string \<Rightarrow> string" where
  "generate_roll_call_url source_data_url =
     (case re_search False rcv_pattern source_data_url of
        Some (year # roll_number # gs) \<Rightarrow>
          ''https://clerk.house.gov/Votes/'' @ year @ zfill 3 roll_number
      | _ \<Rightarrow> source_data_url)"

section \<open>Data models (rcv\_votes/models.py)\<close>

text \<open>\<open>re.match(r'^\d{4}-\d{2}-\d{2}$', date)\<close>\<close>

definition date_format_pattern :: "re_item list" where
  "date_format_pattern =
     [Rep False is_digit 4 (Some 4), Lit ''-'', Rep False is_digit 2 (Some 2), Lit ''-'',
      Rep False is_digit 2 (Some 2), Dollar]"

definition matches_date_format :: "string \<Rightarrow> bool" where
  "matches_date_format s = (re_match_here False date_format_pattern s \<noteq> None)"

record APIVoteData =
  congress :: int
  "identifier" :: int
  legislation_number :: string
  legislation_type :: string
  legislation_url :: string
  bio_guide_id :: string
  first_name :: string
  last_name :: string
  vote_cast :: string
  vote_party :: string
  vote_state :: string
  result :: string
  roll_call_number :: int
  session_number :: int
  source_data_url :: string
  start_date :: string
  update_date :: string
  vote_question :: string
  vote_type :: string

text \<open>The property \<open>APIVoteData.legislation\<close>.\<close>

definition legislation_of :: "APIVoteData \<Rightarrow> string" where
  "legislation_of v =
     (if legislation_type v \<noteq> [] \<and> legislation_number v \<noteq> []
      then legislation_type v @ legislation_number v
      else ''Non-Legislative'')"

definition validate_for_member :: "APIVoteData \<Rightarrow> string \<Rightarrow> string \<Rightarrow> bool" where
  "validate_for_member v target_last_name target_state =
     (lower (last_name v) = lower target_last_name \<and>
      upper (vote_state v) = upper target_state)"

record ScrapedVoteDetails =
  question :: string
  bill_title :: string
  date :: string

text \<open>The constructor of \<open>ScrapedVoteDetails\<close> with its \<open>__post_init__\<close>.\<close>

definition new_ScrapedVoteDetails :: "string \<Rightarrow> string \<Rightarrow> string \<Rightarrow> error + ScrapedVoteDetails" where
  "new_ScrapedVoteDetails q t d =
     (if \<not> matches_date_format d then Inl ValidationError
      else Inr \<lparr>ScrapedVoteDetails.question = q, ScrapedVoteDetails.bill_title = t,
                ScrapedVoteDetails.date = d\<rparr>)"

record VoteRecord =
  congress :: int
  date :: string
  roll_call_number :: int
  legislation :: string
  vote_cast :: string
  question :: string
  bill_title :: string
  roll_call_vote_url :: string

text \<open>\<open>VoteRecord.validate\<close>, run by \<open>__post_init__\<close>.\<close>

definition new_VoteRecord :: "VoteRecord \<Rightarrow> error + VoteRecord" where
  "new_VoteRecord r =
     (if VoteRecord.congress r < 1 then Inl ValidationError
      else if \<not> matches_date_format (VoteRecord.date r) then Inl ValidationError
      else if VoteRecord.roll_call_number r < 1 then Inl ValidationError
      else if VoteRecord.vote_cast r = [] then Inl ValidationError
      else Inr r)"

record MemberSearchCriteria =
  last_name :: string
  state :: string
  congress_numbers :: "int list"

text \<open>
  The constructor of \<open>MemberSearchCriteria\<close> with its \<open>__post_init__\<close>: the checks
  first, the clean-up (\<open>strip\<close>, \<open>upper\<close>) after them.
\<close>

definition new_MemberSearchCriteria :: "string \<Rightarrow> string \<Rightarrow> int list \<Rightarrow> error + MemberSearchCriteria" where
  "new_MemberSearchCriteria ln st cs =
     (if ln = [] then Inl ValidationError
      else if st = [] \<or> length st \<noteq> 2 then Inl ValidationError
      else if cs = [] then Inl ValidationError
      else if \<exists>c \<in> set cs. c < 1 then Inl ValidationError
      else Inr \<lparr>MemberSearchCriteria.last_name = strip ln,
                MemberSearchCriteria.state = upper (strip st),
                MemberSearchCriteria.congress_numbers = cs\<rparr>)"

section \<open>Detail enrichment (rcv\_votes/web\_scraper.py)\<close>

definition not_line_end_or_lt :: "char \<Rightarrow> bool" where
  "not_line_end_or_lt c = (c \<noteq> CHR 0x0A \<and> c \<noteq> CHR 0x0D \<and> c \<noteq> CHR ''<'')"

text \<open>The tail \<open>\s*([^\n\r<]+)\<close> that every question and title pattern shares.\<close>

definition field_tail :: "re_item list" where
  "field_tail = [Rep False is_space 0 None, Rep True not_line_end_or_lt 1 None]"

definition question_patterns :: "re_item list list" where
  "question_patterns =
     [Lit ''QUESTION:'' # field_tail,
      Lit ''<b>QUESTION:</b>'' # field_tail,
      Lit ''Question:'' # field_tail,
      Lit ''QUESTION'' # field_tail]"

definition bill_title_patterns :: "re_item list list" where
  "bill_title_patterns =
     [Lit ''BILL TITLE:'' # field_tail,
      Lit ''<b>BILL TITLE:</b>'' # field_tail,
      Lit ''Bill Title:'' # field_tail,
      Lit ''BILL TITLE'' # field_tail,
      Lit ''Title:'' # field_tail]"

text \<open>
  The loop of \<open>_extract_question\<close> and \<open>_extract_bill_title\<close>: the first pattern whose
  group is not empty after \<open>strip\<close>, with \<open>re.IGNORECASE\<close>.
\<close>

fun extract_first :: "re_item list list \<Rightarrow> string \<Rightarrow> string" where
  "extract_first [] html_content = []"
| "extract_first (pattern # rest) html_content =
     (case re_search True pattern html_content of
        Some (g # gs) \<Rightarrow>
          (if strip g \<noteq> [] then strip g else extract_first rest html_content)
      | _ \<Rightarrow> extract_first rest html_content)"

definition extract_question :: "string \<Rightarrow> string" where
  "extract_question html_content = extract_first question_patterns html_content"

definition extract_bill_title :: "string \<Rightarrow> string" where
  "extract_bill_title html_content = extract_first bill_title_patterns html_content"

subsection \<open>Dates\<close>

text \<open>
  \<open>datetime.strptime(s, '%Y-%m-%d')\<close>: the year is four digits, the month one of
  \<open>1[0-2]|0[1-9]|[1-9]\<close>, the day one of \<open>3[0-1]|[1-2]\d|0[1-9]|[1-9]| [1-9]\<close>,
  nothing may follow, and the three numbers are a date of the proleptic Gregorian
  calendar in the years 1 to 9999. \<open>None\<close> is the \<open>ValueError\<close>.
\<close>

definition is_leap :: "nat \<Rightarrow> bool" where
  "is_leap y = (y mod 4 = 0 \<and> (y mod 100 \<noteq> 0 \<or> y mod 400 = 0))"

definition days_in_month :: "nat \<Rightarrow> nat \<Rightarrow> nat" where
  "days_in_month y m =
     (if m = 2 then (if is_leap y then 29 else 28)
      else if m = 4 \<or> m = 6 \<or> m = 9 \<or> m = 11 then 30 else 31)"

definition month_token :: "string \<Rightarrow> nat option" where
  "month_token tok =
     (if tok \<noteq> [] \<and> length tok \<le> 2 \<and> list_all is_digit tok \<and>
         1 \<le> int_of_digits tok \<and> int_of_digits tok \<le> 12
      then Some (int_of_digits tok) else None)"

definition day_token :: "string \<Rightarrow> nat option" where
  "day_token tok =
     (if tok \<noteq> [] \<and> length tok \<le> 2 \<and> list_all is_digit tok \<and>
         1 \<le> int_of_digits tok \<and> int_of_digits tok \<le> 31
      then Some (int_of_digits tok)
      else case tok of
             [sp, d] \<Rightarrow>
               (if sp = CHR '' '' \<and> is_digit d \<and> d \<noteq> CHR ''0'' then Some (digit_val d)
                else None)
           | _ \<Rightarrow> None)"

definition strptime_ymd :: "string \<Rightarrow> (nat \<times> nat \<times> nat) option" where
  "strptime_ymd s =
     (let y = take 4 s; r1 = drop 4 s
      in if length y = 4 \<and> list_all is_digit y \<and> take 1 r1 = ''-''
         then let m = takeWhile (\<lambda>c. c \<noteq> CHR ''-'') (drop 1 r1);
                  r2 = dropWhile (\<lambda>c. c \<noteq> CHR ''-'') (drop 1 r1)
              in if take 1 r2 = ''-''
                 then case (month_token m, day_token (drop 1 r2)) of
                        (Some mo, Some d) \<Rightarrow>
                          (if 1 \<le> int_of_digits y \<and> d \<le> days_in_month (int_of_digits y) mo
                           then Some (int_of_digits y, mo, d) else None)
                      | _ \<Rightarrow> None
                 else None
         else None)"

text \<open>
  The patterns of \<open>_extract_date\<close>:
  \<open>(\d{1,2})-([A-Za-z]{3})-(\d{4})\<close>, \<open>(\d{1,2})/(\d{1,2})/(\d{4})\<close> and
  \<open>(\d{4})-(\d{1,2})-(\d{1,2})\<close>.
\<close>

definition date_patterns :: "re_item list list" where
  "date_patterns =
     [[Rep True is_digit 1 (Some 2), Lit ''-'', Rep True is_ascii_letter 3 (Some 3), Lit ''-'',
       Rep True is_digit 4 (Some 4)],
      [Rep True is_digit 1 (Some 2), Lit ''/'', Rep True is_digit 1 (Some 2), Lit ''/'',
       Rep True is_digit 4 (Some 4)],
      [Rep True is_digit 4 (Some 4), Lit ''-'', Rep True is_digit 1 (Some 2), Lit ''-'',
       Rep True is_digit 1 (Some 2)]]"

definition month_map :: "(string \<times> string) list" where
  "month_map =
     [(''jan'', ''01''), (''feb'', ''02''), (''mar'', ''03''), (''apr'', ''04''),
      (''may'', ''05''), (''jun'', ''06''), (''jul'', ''07''), (''aug'', ''08''),
      (''sep'', ''09''), (''oct'', ''10''), (''nov'', ''11''), (''dec'', ''12'')]"

text \<open>
  \<open>validated\<close> is the call of \<open>strptime\<close> that guards each \<open>return\<close>;
  \<open>format_candidate i\<close> is the body of the \<open>try\<close> for pattern number \<open>i\<close>, \<open>None\<close>
  when it raises \<open>ValueError\<close> or leaves the \<open>if\<close> chain without returning.
\<close>

definition validated :: "string \<Rightarrow> string option" where
  "validated formatted_date =
     (case strptime_ymd formatted_date of None \<Rightarrow> None | Some ymd \<Rightarrow> Some formatted_date)"

definition format_candidate :: "nat \<Rightarrow> string list \<Rightarrow> string option" where
  "format_candidate i gs =
     (if i = 0 then
        (case gs of
           g1 # month_abbr # year # rest \<Rightarrow>
             (case map_of month_map (lower month_abbr) of
                None \<Rightarrow> None
              | Some month_num \<Rightarrow> validated (year @ ''-'' @ month_num @ ''-'' @ zfill 2 g1))
         | _ \<Rightarrow> None)
      else if i = 1 then
        (case gs of
           g1 # g2 # year # rest \<Rightarrow> validated (year @ ''-'' @ zfill 2 g1 @ ''-'' @ zfill 2 g2)
         | _ \<Rightarrow> None)
      else if i = 2 then
        (case gs of
           year # g2 # g3 # rest \<Rightarrow> validated (year @ ''-'' @ zfill 2 g2 @ ''-'' @ zfill 2 g3)
         | _ \<Rightarrow> None)
      else None)"

fun extract_date_loop :: "(nat \<times> re_item list) list \<Rightarrow> string \<Rightarrow> string" where
  "extract_date_loop [] html_content = []"
| "extract_date_loop ((i, pattern) # rest) html_content =
     (case re_search False pattern html_content of
        None \<Rightarrow> extract_date_loop rest html_content
      | Some gs \<Rightarrow>
          (case format_candidate i gs of
             Some formatted_date \<Rightarrow> formatted_date
           | None \<Rightarrow> extract_date_loop rest html_content))"

definition extract_date :: "string \<Rightarrow> string" where
  "extract_date html_content = extract_date_loop (enumerate 0 date_patterns) html_content"

subsection \<open>\<open>extract_vote_details\<close>\<close>

text \<open>
  \<open>http_get\<close> is the page fetch (\<open>session.get\<close> followed by \<open>raise_for_status\<close>): the
  page text, or the exception raised. Both \<open>except\<close> clauses of the source leave the
  three fields at their initial empty strings.
\<close>

definition extract_vote_details :: "(string \<Rightarrow> error + string) \<Rightarrow> string \<Rightarrow> error + ScrapedVoteDetails" where
  "extract_vote_details http_get src =
     (let (q, t, d) =
            (case generate_rcv_url src of
               Inl e \<Rightarrow> ([], [], [])
             | Inr rcv_url \<Rightarrow>
                 (case http_get rcv_url of
                    Inl e \<Rightarrow> ([], [], [])
                  | Inr page \<Rightarrow> (extract_question page, extract_bill_title page, extract_date page)));
          d' = (if d = [] then ''1900-01-01'' else d)
      in new_ScrapedVoteDetails q t d')"

section \<open>Collection (rcv\_votes/vote\_collector.py)\<close>

text \<open>
  A \<open>VoteCollector\<close> holds its two collaborators. \<open>api_client\<close> is
  \<open>CongressAPIClient.get_house_vote_members\<close>: for a congress, a session and a vote
  number it returns the member votes or raises. \<open>web_scraper\<close> is the page fetch the
  scraper's \<open>extract_vote_details\<close> runs on.
\<close>

record VoteCollector =
  api_client :: "int \<Rightarrow> int \<Rightarrow> int \<Rightarrow> error + APIVoteData list"
  web_scraper :: "string \<Rightarrow> error + string"

text \<open>\<open>_find_member_vote\<close>\<close>

definition find_member_vote :: "APIVoteData list \<Rightarrow> string \<Rightarrow> string \<Rightarrow> APIVoteData option" where
  "find_member_vote api_vote_data ln st =
     List.find (\<lambda>vote_data. validate_for_member vote_data ln st) api_vote_data"

text \<open>
  The branch \<open>if member_vote:\<close> of \<open>_collect_session_votes\<close>, up to the record it
  appends: the scraped question and date win over the API's when present.
\<close>

definition merge_question :: "string \<Rightarrow> string \<Rightarrow> string" where
  "merge_question scraped_question api_question =
     (if scraped_question \<noteq> [] then scraped_question else api_question)"

definition merge_date :: "string \<Rightarrow> string \<Rightarrow> string" where
  "merge_date scraped_date api_start_date =
     (if scraped_date = ''1900-01-01''
      then (let api_date = takeWhile (\<lambda>c. c \<noteq> CHR ''T'') api_start_date
            in if matches_date_format api_date then api_date else scraped_date)
      else scraped_date)"

definition collect_vote :: "VoteCollector \<Rightarrow> APIVoteData \<Rightarrow> error + VoteRecord" where
  "collect_vote self member_vote =
     (case extract_vote_details (web_scraper self) (source_data_url member_vote) of
        Inl e \<Rightarrow> Inl e
      | Inr scraped_details \<Rightarrow>
          new_VoteRecord
            \<lparr>VoteRecord.congress = APIVoteData.congress member_vote,
             VoteRecord.date =
               merge_date (ScrapedVoteDetails.date scraped_details) (start_date member_vote),
             VoteRecord.roll_call_number = APIVoteData.roll_call_number member_vote,
             VoteRecord.legislation = legislation_of member_vote,
             VoteRecord.vote_cast = APIVoteData.vote_cast member_vote,
             VoteRecord.question =
               merge_question (ScrapedVoteDetails.question scraped_details)
                 (vote_question member_vote),
             VoteRecord.bill_title = ScrapedVoteDetails.bill_title scraped_details,
             VoteRecord.roll_call_vote_url =
               generate_roll_call_url (source_data_url member_vote)\<rparr>)"

text \<open>
  The cap \<open>max_votes\<close> is an optional integer; \<open>if max_votes and len(votes) >= max_votes\<close>
  is \<open>cap_reached\<close>, and \<open>max_votes - len(votes) if max_votes else None\<close> is
  \<open>remaining\<close>.
\<close>

definition cap_reached :: "int option \<Rightarrow> nat \<Rightarrow> bool" where
  "cap_reached max_votes n =
     (case max_votes of None \<Rightarrow> False | Some m \<Rightarrow> m \<noteq> 0 \<and> m \<le> int n)"

definition remaining :: "int option \<Rightarrow> nat \<Rightarrow> int option" where
  "remaining max_votes n =
     (case max_votes of
        None \<Rightarrow> None
      | Some m \<Rightarrow> if m \<noteq> 0 then Some (m - int n) else None)"

text \<open>The local variables of the \<open>while\<close> loop of \<open>_collect_session_votes\<close>.\<close>

record scan =
  session_votes :: "VoteRecord list"
  vote_number :: int
  consecutive_failures :: nat

definition max_consecutive_failures :: nat where
  "max_consecutive_failures = 5"

text \<open>
  The \<open>while\<close> loop. It has no bound: where every fetch succeeds it never returns, and
  its value is \<open>None\<close>. \<open>Some (Inl e)\<close> is the exception that leaves the loop,
  \<open>Some (Inr sc)\<close> the locals at the \<open>return\<close>.
\<close>

partial_function (option) session_loop ::
  "VoteCollector \<Rightarrow> int \<Rightarrow> int \<Rightarrow> string \<Rightarrow> string \<Rightarrow> int option \<Rightarrow> scan \<Rightarrow> (error + scan) option"
where
  "session_loop self cong sess ln st max_votes sc =
     (if \<not> consecutive_failures sc < max_consecutive_failures then Some (Inr sc)
      else if cap_reached max_votes (length (session_votes sc)) then Some (Inr sc)
      else case api_client self cong sess (vote_number sc) of
             Inr api_vote_data \<Rightarrow>
               (case find_member_vote api_vote_data ln st of
                  Some member_vote \<Rightarrow>
                    (case collect_vote self member_vote of
                       Inl e \<Rightarrow> Some (Inl e)
                     | Inr vote_record \<Rightarrow>
                         session_loop self cong sess ln st max_votes
                           (sc\<lparr>session_votes := session_votes sc @ [vote_record],
                               consecutive_failures := 0,
                               vote_number := vote_number sc + 1\<rparr>))
                | None \<Rightarrow>
                    session_loop self cong sess ln st max_votes
                      (sc\<lparr>consecutive_failures := 0, vote_number := vote_number sc + 1\<rparr>))
           | Inl (APIError status_code) \<Rightarrow>
               (let sc' = sc\<lparr>consecutive_failures := consecutive_failures sc + 1,
                              vote_number := vote_number sc + 1\<rparr>
                in if max_consecutive_failures \<le> consecutive_failures sc' then Some (Inr sc')
                   else session_loop self cong sess ln st max_votes sc')
           | Inl e \<Rightarrow> Some (Inl e))"

declare session_loop.simps [code]

definition initial_scan :: scan where
  "initial_scan = \<lparr>session_votes = [], vote_number = 1, consecutive_failures = 0\<rparr>"

text \<open>\<open>_collect_session_votes\<close>\<close>

definition collect_session_votes ::
  "VoteCollector \<Rightarrow> int \<Rightarrow> int \<Rightarrow> string \<Rightarrow> string \<Rightarrow> int option \<Rightarrow> (error + VoteRecord list) option"
where
  "collect_session_votes self cong sess ln st max_votes =
     (case session_loop self cong sess ln st max_votes initial_scan of
        None \<Rightarrow> None
      | Some (Inl e) \<Rightarrow> Some (Inl e)
      | Some (Inr sc) \<Rightarrow> Some (Inr (session_votes sc)))"

text \<open>\<open>_collect_congress_votes\<close>: the loop over the sessions, run on \<open>[1, 2]\<close>.\<close>

fun congress_loop ::
  "VoteCollector \<Rightarrow> int \<Rightarrow> string \<Rightarrow> string \<Rightarrow> int option \<Rightarrow> int list \<Rightarrow> VoteRecord list \<Rightarrow>
   (error + VoteRecord list) option"
where
  "congress_loop self cong ln st max_votes [] congress_votes = Some (Inr congress_votes)"
| "congress_loop self cong ln st max_votes (sess # rest) congress_votes =
     (if cap_reached max_votes (length congress_votes) then Some (Inr congress_votes)
      else case collect_session_votes self cong sess ln st
                  (remaining max_votes (length congress_votes)) of
             None \<Rightarrow> None
           | Some (Inl e) \<Rightarrow> Some (Inl e)
           | Some (Inr votes) \<Rightarrow>
               congress_loop self cong ln st max_votes rest (congress_votes @ votes))"

definition collect_congress_votes ::
  "VoteCollector \<Rightarrow> int \<Rightarrow> string \<Rightarrow> string \<Rightarrow> int option \<Rightarrow> (error + VoteRecord list) option"
where
  "collect_congress_votes self cong ln st max_votes =
     congress_loop self cong ln st max_votes [1, 2] []"

text \<open>The slice \<open>xs[:m]\<close>.\<close>

definition slice_to :: "int \<Rightarrow> 'a list \<Rightarrow> 'a list" where
  "slice_to m xs = (if 0 \<le> m then take (nat m) xs else take (length xs - nat (- m)) xs)"

text \<open>
  \<open>collect_member_votes\<close>: the loop over the congress numbers. The \<open>except\<close> clause
  logs and raises again, so an exception is the result of the call.
\<close>

fun member_loop ::
  "VoteCollector \<Rightarrow> string \<Rightarrow> string \<Rightarrow> int option \<Rightarrow> int list \<Rightarrow> VoteRecord list \<Rightarrow>
   (error + VoteRecord list) option"
where
  "member_loop self ln st max_votes [] all_votes = Some (Inr all_votes)"
| "member_loop self ln st max_votes (cong # rest) all_votes =
     (if cap_reached max_votes (length all_votes) then Some (Inr all_votes)
      else case collect_congress_votes self cong ln st
                  (remaining max_votes (length all_votes)) of
             None \<Rightarrow> None
           | Some (Inl e) \<Rightarrow> Some (Inl e)
           | Some (Inr congress_votes) \<Rightarrow>
               (let all_votes' = all_votes @ congress_votes
                in if cap_reached max_votes (length all_votes')
                   then Some (Inr (slice_to (the max_votes) all_votes'))
                   else member_loop self ln st max_votes rest all_votes'))"

definition collect_member_votes ::
  "VoteCollector \<Rightarrow> MemberSearchCriteria \<Rightarrow> int option \<Rightarrow> (error + VoteRecord list) option"
where
  "collect_member_votes self search_criteria max_votes =
     member_loop self (MemberSearchCriteria.last_name search_criteria)
       (MemberSearchCriteria.state search_criteria) max_votes
       (congress_numbers search_criteria) []"

section \<open>Notions used in the statements\<close>

text \<open>
  What a match captured: \<open>group_ok it g\<close> says that \<open>g\<close> is a run of the class of
  \<open>it\<close> within its bounds.
\<close>

fun group_ok :: "re_item \<Rightarrow> string \<Rightarrow> bool" where
  "group_ok (Rep captured cls lo hi) g =
     (list_all cls g \<and> lo \<le> length g \<and> (case hi of None \<Rightarrow> True | Some h \<Rightarrow> length g \<le> h))"
| "group_ok it g = False"

fun is_group :: "re_item \<Rightarrow> bool" where
  "is_group (Rep captured cls lo hi) = captured"
| "is_group it = False"

text \<open>
  A canonical date: \<open>YYYY-MM-DD\<close>, all digits, that \<open>strptime\<close> accepts.
\<close>

definition canonical_date :: "string \<Rightarrow> bool" where
  "canonical_date s =
     (\<exists>y m d. s = y @ ''-'' @ m @ ''-'' @ d \<and> list_all is_digit y \<and> length y = 4 \<and>
        list_all is_digit m \<and> length m = 2 \<and> list_all is_digit d \<and> length d = 2 \<and>
        strptime_ymd s \<noteq> None)"


text \<open>The details every failure of the enrichment degrades to.\<close>

definition empty_details :: ScrapedVoteDetails where
  "empty_details =
     \<lparr>ScrapedVoteDetails.question = [], ScrapedVoteDetails.bill_title = [],
      ScrapedVoteDetails.date = ''1900-01-01''\<rparr>"

subsection \<open>Fixtures\<close>

text \<open>
  The mocked collaborators of the specification's end-to-end scenario: the API returns one
  record of member Doe of Texas for vote 1 and a not-found fault for every other vote
  number. The offline collector's page fetch always fails; the online one's returns a page
  with a question, a title and a date.
\<close>

definition doe_vote :: APIVoteData where
  "doe_vote =
     \<lparr>APIVoteData.congress = 118, identifier = 1181202301, legislation_number = ''758'',
      legislation_type = ''HR'', legislation_url = [], bio_guide_id = ''D000001'',
      first_name = ''Jane'', APIVoteData.last_name = ''DOE'', APIVoteData.vote_cast = ''Yea'',
      vote_party = ''R'', vote_state = ''tx'', result = ''Passed'',
      APIVoteData.roll_call_number = 1, session_number = 1,
      source_data_url = ''https://clerk.house.gov/evs/2023/roll001.xml'',
      start_date = ''2023-01-03T12:28:00-05:00'', update_date = ''2023-01-04'',
      vote_question = ''Q_API'', vote_type = ''YEA-AND-NAY''\<rparr>"

definition mock_api :: "int \<Rightarrow> int \<Rightarrow> int \<Rightarrow> error + APIVoteData list" where
  "mock_api cong sess n = (if n = 1 then Inr [doe_vote] else Inl (APIError (Some 404)))"

definition offline_collector :: VoteCollector where
  "offline_collector = \<lparr>api_client = mock_api, web_scraper = (\<lambda>url. Inl RequestException)\<rparr>"

definition scraped_page :: string where
  "scraped_page = ''<b>QUESTION:</b> Q_SCRAPED<br>BILL TITLE: Some Act<br>Date: 3-Jan-2023''"

definition online_collector :: VoteCollector where
  "online_collector = \<lparr>api_client = mock_api, web_scraper = (\<lambda>url. Inr scraped_page)\<rparr>"

text \<open>
  The record the offline collector finishes for Doe, the scenario's search criteria (and
  the same over two congresses), and a collector whose API answers vote 1 and then
  returns a malformed response.
\<close>

definition doe_record :: VoteRecord where
  "doe_record =
     \<lparr>VoteRecord.congress = 118, VoteRecord.date = ''2023-01-03'',
      VoteRecord.roll_call_number = 1, VoteRecord.legislation = ''HR758'',
      VoteRecord.vote_cast = ''Yea'', VoteRecord.question = ''Q_API'',
      VoteRecord.bill_title = [],
      VoteRecord.roll_call_vote_url = ''https://clerk.house.gov/Votes/2023001''\<rparr>"

definition doe_criteria :: MemberSearchCriteria where
  "doe_criteria =
     \<lparr>MemberSearchCriteria.last_name = ''Doe'', MemberSearchCriteria.state = ''TX'',
      MemberSearchCriteria.congress_numbers = [118]\<rparr>"

definition broken_api :: "int \<Rightarrow> int \<Rightarrow> int \<Rightarrow> error + APIVoteData list" where
  "broken_api cong sess n = (if n = 1 then Inr [doe_vote] else Inl ValidationError)"

definition broken_collector :: VoteCollector where
  "broken_collector = \<lparr>api_client = broken_api, web_scraper = (\<lambda>url. Inl RequestException)\<rparr>"


section \<open>Facts about matching\<close>

text \<open>
  A repetition whose class holds on all of \<open>g\<close> and stops right after it takes \<open>g\<close>,
  provided the rest of the pattern matches what follows.
\<close>

lemma lit_matches_append: "lit_matches False l (l @ s)"
  by (simp add: lit_matches_def)

lemma takeWhile_run:
  "list_all cls g \<Longrightarrow> rest = [] \<or> \<not> cls (hd rest) \<Longrightarrow> takeWhile cls (g @ rest) = g"
  by (cases rest) (auto simp: list_all_iff takeWhile_append2)

lemma rep_greedy:
  assumes g: "list_all cls g" and stop: "rest = [] \<or> \<not> cls (hd rest)"
    and lo: "lo \<le> length g" and hi: "case hi of None \<Rightarrow> True | Some h \<Rightarrow> length g \<le> h"
    and k: "re_match_here ic r rest = Some gs"
  shows "re_match_here ic (Rep captured cls lo hi # r) (g @ rest) =
           Some (if captured then g # gs else gs)"
proof -
  have tw: "takeWhile cls (g @ rest) = g" using g stop by (rule takeWhile_run)
  have top: "(case hi of None \<Rightarrow> length g | Some h \<Rightarrow> min h (length g)) = length g"
    using hi by (cases hi) (simp_all add: min_def)
  show ?thesis
    using k lo by (simp add: tw top Let_def)
qed


lemma rep_greedy_skip:
  "list_all cls g \<Longrightarrow> rest = [] \<or> \<not> cls (hd rest) \<Longrightarrow> lo \<le> length g \<Longrightarrow>
   (case hi of None \<Rightarrow> True | Some h \<Rightarrow> length g \<le> h) \<Longrightarrow>
   re_match_here ic r rest = Some gs \<Longrightarrow>
   re_match_here ic (Rep False cls lo hi # r) (g @ rest) = Some gs"
  using rep_greedy [of cls g rest lo hi ic r gs False] by simp


lemma lit_step:
  "re_match_here False r s = Some gs \<Longrightarrow> re_match_here False (Lit l # r) (l @ s) = Some gs"
  by (simp add: lit_matches_append)

lemma first_someD: "first_some f xs = Some y \<Longrightarrow> \<exists>x \<in> set xs. f x = Some y"
  by (induction xs) (auto split: option.splits)

lemma take_run:
  assumes "k \<le> length (takeWhile cls s)"
  shows "list_all cls (take k s)" and "length (take k s) = k"
proof -
  have "take k (takeWhile cls s @ dropWhile cls s) = take k (takeWhile cls s)"
    using assms by (simp del: takeWhile_dropWhile_id)
  then have eq: "take k s = take k (takeWhile cls s)" by simp
  have "\<forall>c \<in> set (takeWhile cls s). cls c"
    by (meson set_takeWhileD)
  then have "\<forall>c \<in> set (take k (takeWhile cls s)). cls c"
    by (meson in_set_takeD)
  then show "list_all cls (take k s)"
    by (simp add: eq list_all_iff)
  have "length (takeWhile cls s) \<le> length s" by (rule length_takeWhile_le)
  then show "length (take k s) = k" using assms by simp
qed

lemma re_match_groups:
  "re_match_here ic p s = Some gs \<Longrightarrow> list_all2 group_ok (filter is_group p) gs"
proof (induction p arbitrary: s gs)
  case Nil
  then show ?case by simp
next
  case (Cons it r)
  show ?case
  proof (cases it)
    case (Lit l)
    with Cons show ?thesis by (simp split: if_splits)
  next
    case Dollar
    with Cons show ?thesis by (simp split: if_splits)
  next
    case (Rep captured cls lo hi)
    define top where
      "top = (case hi of None \<Rightarrow> length (takeWhile cls s)
              | Some h \<Rightarrow> min h (length (takeWhile cls s)))"
    define F where
      "F = (\<lambda>k. map_option (\<lambda>gs. if captured then take k s # gs else gs)
                  (re_match_here ic r (drop k s)))"
    from Cons.prems Rep have "first_some F (rev [lo ..< Suc top]) = Some gs"
      by (simp add: Let_def top_def F_def)
    then obtain k where k: "k \<in> set (rev [lo ..< Suc top])" and m: "F k = Some gs"
      by (blast dest: first_someD)
    from m obtain gs' where r: "re_match_here ic r (drop k s) = Some gs'"
      and gs: "gs = (if captured then take k s # gs' else gs')"
      by (auto simp: F_def)
    have lok: "lo \<le> k" and ktop: "k \<le> top" using k by auto
    have kav: "k \<le> length (takeWhile cls s)"
      using ktop by (auto simp: top_def split: option.splits)
    have khi: "case hi of None \<Rightarrow> True | Some h \<Rightarrow> k \<le> h"
      using ktop by (auto simp: top_def split: option.splits)
    have ih: "list_all2 group_ok (filter is_group r) gs'"
      using r by (rule Cons.IH)
    have len: "length (take k s) = k" by (rule take_run(2) [OF kav])
    have cls: "list_all cls (take k s)" by (rule take_run(1) [OF kav])
    have "group_ok (Rep captured cls lo hi) (take k s)"
      using lok khi cls by (cases hi) (simp_all del: length_take add: len)
    then show ?thesis
      using ih gs Rep by simp
  qed
qed

lemma re_search_groups:
  "re_search ic p s = Some gs \<Longrightarrow> list_all2 group_ok (filter is_group p) gs"
  by (induction s) (auto split: option.splits dest: re_match_groups)

lemma zfill_digits:
  "list_all is_digit n \<Longrightarrow> n \<noteq> [] \<Longrightarrow> zfill w n = replicate (w - length n) CHR ''0'' @ n"
  by (cases n) (auto simp: zfill_def is_digit_def)









section \<open>Claims about the display URL\<close>




section \<open>Facts about extracted dates\<close>

lemma date_format_ok:
  assumes y: "list_all is_digit y" "length y = 4"
    and m: "list_all is_digit m" "length m = 2"
    and d: "list_all is_digit d" "length d = 2"
  shows "matches_date_format (y @ ''-'' @ m @ ''-'' @ d)"
proof -
  have nd: "\<not> is_digit CHR ''-''" by (simp add: is_digit_def)
  have 6: "re_match_here False [Dollar] [] = Some []" by simp
  have 5: "re_match_here False [Rep False is_digit 2 (Some 2), Dollar] (d @ []) = Some []"
    using d 6 by (intro rep_greedy_skip) simp_all
  have 4: "re_match_here False [Lit ''-'', Rep False is_digit 2 (Some 2), Dollar]
             (''-'' @ d @ []) = Some []"
    using 5 by (rule lit_step)
  have 3: "re_match_here False
             [Rep False is_digit 2 (Some 2), Lit ''-'', Rep False is_digit 2 (Some 2), Dollar]
             (m @ ''-'' @ d @ []) = Some []"
    using m nd 4 by (intro rep_greedy_skip) simp_all
  have 2: "re_match_here False
             [Lit ''-'', Rep False is_digit 2 (Some 2), Lit ''-'', Rep False is_digit 2 (Some 2),
              Dollar]
             (''-'' @ m @ ''-'' @ d @ []) = Some []"
    using 3 by (rule lit_step)
  have 1: "re_match_here False date_format_pattern (y @ ''-'' @ m @ ''-'' @ d @ []) = Some []"
    unfolding date_format_pattern_def using y nd 2 by (intro rep_greedy_skip) simp_all
  then show ?thesis by (simp add: matches_date_format_def)
qed

lemma month_map_value:
  "map_of month_map k = Some v \<Longrightarrow> list_all is_digit v \<and> length v = 2"
  by (auto simp: month_map_def is_digit_def split: if_splits)

lemma zfill2_digits:
  assumes "list_all is_digit g" and "1 \<le> length g" and "length g \<le> 2"
  shows "list_all is_digit (zfill 2 g) \<and> length (zfill 2 g) = 2"
proof -
  have z: "is_digit CHR ''0''" by (simp add: is_digit_def)
  from assms have "g \<noteq> []" by auto
  with assms(1) have "zfill 2 g = replicate (2 - length g) CHR ''0'' @ g" by (rule zfill_digits)
  with assms z show ?thesis by (auto simp: list_all_iff)
qed

lemma validated_canonical:
  assumes "validated (y @ ''-'' @ m @ ''-'' @ d) = Some s"
    and "list_all is_digit y" "length y = 4" "list_all is_digit m" "length m = 2"
    and "list_all is_digit d" "length d = 2"
  shows "canonical_date s"
proof -
  from assms(1) have "s = y @ ''-'' @ m @ ''-'' @ d" and "strptime_ymd s \<noteq> None"
    by (auto simp: validated_def split: option.splits)
  with assms(2-) show ?thesis unfolding canonical_date_def by blast
qed

lemma format_candidate_canonical:
  assumes "i < 3" and "list_all2 group_ok (filter is_group (date_patterns ! i)) gs"
    and "format_candidate i gs = Some s"
  shows "canonical_date s"
proof -
  from assms(1) consider "i = 0" | "i = 1" | "i = 2" by linarith
  then show ?thesis
  proof cases
    case 1
    with assms(2) obtain g1 mon year where gs: "gs = [g1, mon, year]"
      and g1: "list_all is_digit g1" "1 \<le> length g1" "length g1 \<le> 2"
      and yr: "list_all is_digit year" "length year = 4"
      by (auto simp: date_patterns_def list_all2_Cons1)
    from assms(3) 1 gs obtain mm where mm: "map_of month_map (lower mon) = Some mm"
      and v: "validated (year @ ''-'' @ mm @ ''-'' @ zfill 2 g1) = Some s"
      by (auto simp: format_candidate_def split: option.splits)
    show ?thesis
      using v yr month_map_value [OF mm] zfill2_digits [OF g1]
      by (intro validated_canonical [of year mm "zfill 2 g1"]) simp_all
  next
    case 2
    with assms(2) obtain g1 g2 year where gs: "gs = [g1, g2, year]"
      and g1: "list_all is_digit g1" "1 \<le> length g1" "length g1 \<le> 2"
      and g2: "list_all is_digit g2" "1 \<le> length g2" "length g2 \<le> 2"
      and yr: "list_all is_digit year" "length year = 4"
      by (auto simp: date_patterns_def list_all2_Cons1)
    from assms(3) 2 gs have v: "validated (year @ ''-'' @ zfill 2 g1 @ ''-'' @ zfill 2 g2) = Some s"
      by (simp add: format_candidate_def)
    show ?thesis
      using v yr zfill2_digits [OF g1] zfill2_digits [OF g2]
      by (intro validated_canonical [of year "zfill 2 g1" "zfill 2 g2"]) simp_all
  next
    case 3
    with assms(2) obtain year g2 g3 where gs: "gs = [year, g2, g3]"
      and g2: "list_all is_digit g2" "1 \<le> length g2" "length g2 \<le> 2"
      and g3: "list_all is_digit g3" "1 \<le> length g3" "length g3 \<le> 2"
      and yr: "list_all is_digit year" "length year = 4"
      by (auto simp: date_patterns_def list_all2_Cons1)
    from assms(3) 3 gs have v: "validated (year @ ''-'' @ zfill 2 g2 @ ''-'' @ zfill 2 g3) = Some s"
      by (simp add: format_candidate_def)
    show ?thesis
      using v yr zfill2_digits [OF g2] zfill2_digits [OF g3]
      by (intro validated_canonical [of year "zfill 2 g2" "zfill 2 g3"]) simp_all
  qed
qed

lemma enumerate_date_patterns:
  "enumerate 0 date_patterns =
     [(0, date_patterns ! 0), (1, date_patterns ! 1), (2, date_patterns ! 2)]"
  by (simp add: date_patterns_def)

lemma extract_date_canonical: "extract_date html = [] \<or> canonical_date (extract_date html)"
proof -
  have step: "canonical_date s"
    if "re_search False (date_patterns ! i) html = Some gs" "format_candidate i gs = Some s" "i < 3"
    for i gs s
    using that re_search_groups format_candidate_canonical by blast
  show ?thesis
    unfolding extract_date_def enumerate_date_patterns
    by (auto split: option.splits dest: step)
qed

lemma canonical_matches: "canonical_date s \<Longrightarrow> matches_date_format s"
  unfolding canonical_date_def using date_format_ok by blast






























section \<open>Facts about the fixtures\<close>

lemma find_doe: "find_member_vote [doe_vote] ''Doe'' ''TX'' = Some doe_vote"
  by code_simp

lemma collect_doe_offline: "collect_vote offline_collector doe_vote = Inr doe_record"
  by code_simp

lemma collect_doe_broken: "collect_vote broken_collector doe_vote = Inr doe_record"
  by code_simp

section \<open>Claims about the enrichment\<close>

lemma sentinel_format: "matches_date_format ''1900-01-01''"
  by code_simp

text \<open>
  Claim C6. For every source reference and every behaviour of the page fetch,
  \<open>extract_vote_details\<close> returns details and raises nothing. When the URL derivation
  fails or the fetch raises, the details are the empty strings and the date sentinel
  \<open>1900-01-01\<close>; when the page is fetched, each field is what its extraction found, the
  empty string (for the date, the sentinel) where no pattern matched.
\<close>

theorem enrich_never_raises:
  "(\<exists>details. extract_vote_details http_get src = Inr details) \<and>
   ((\<exists>e. generate_rcv_url src = Inl e) \<longrightarrow>
      extract_vote_details http_get src = Inr empty_details) \<and>
   (\<forall>url e. generate_rcv_url src = Inr url \<longrightarrow> http_get url = Inl e \<longrightarrow>
      extract_vote_details http_get src = Inr empty_details) \<and>
   (\<forall>url page. generate_rcv_url src = Inr url \<longrightarrow> http_get url = Inr page \<longrightarrow>
      extract_vote_details http_get src =
        Inr \<lparr>ScrapedVoteDetails.question = extract_question page,
             ScrapedVoteDetails.bill_title = extract_bill_title page,
             ScrapedVoteDetails.date =
               (if extract_date page = [] then ''1900-01-01'' else extract_date page)\<rparr>)"
proof -
  have ok: "matches_date_format (if extract_date page = [] then ''1900-01-01'' else extract_date page)"
    for page
    using extract_date_canonical [of page] canonical_matches sentinel_format by auto
  have page: "extract_vote_details http_get src =
        Inr \<lparr>ScrapedVoteDetails.question = extract_question page,
             ScrapedVoteDetails.bill_title = extract_bill_title page,
             ScrapedVoteDetails.date =
               (if extract_date page = [] then ''1900-01-01'' else extract_date page)\<rparr>"
    if "generate_rcv_url src = Inr url" "http_get url = Inr page" for url page
    using that ok [of page]
    by (simp add: extract_vote_details_def new_ScrapedVoteDetails_def)
  have noget: "extract_vote_details http_get src = Inr empty_details"
    if "generate_rcv_url src = Inr url" "http_get url = Inl e" for url e
    using that sentinel_format
    by (simp add: extract_vote_details_def new_ScrapedVoteDetails_def empty_details_def)
  have nourl: "extract_vote_details http_get src = Inr empty_details"
    if "generate_rcv_url src = Inl e" for e
    using that sentinel_format
    by (simp add: extract_vote_details_def new_ScrapedVoteDetails_def empty_details_def)
  have total: "\<exists>details. extract_vote_details http_get src = Inr details"
  proof (cases "generate_rcv_url src")
    case (Inl e)
    then show ?thesis using nourl by blast
  next
    case (Inr url)
    then show ?thesis using noget page by (cases "http_get url") blast+
  qed
  show ?thesis using total nourl noget page by blast
qed

theorem enrich_never_raises_witness:
  "extract_vote_details (\<lambda>url. Inl RequestException) ''not a source reference'' = Inr empty_details
   \<and> extract_vote_details (\<lambda>url. Inl RequestException)
        ''https://clerk.house.gov/evs/2023/roll001.xml'' = Inr empty_details
   \<and> extract_vote_details (\<lambda>url. Inr ''<html>nothing to find</html>'')
        ''https://clerk.house.gov/evs/2023/roll001.xml'' = Inr empty_details"
proof -
  have bad: "generate_rcv_url ''not a source reference'' = Inl ValidationError"
    by code_simp
  have good: "generate_rcv_url ''https://clerk.house.gov/evs/2023/roll001.xml''
               = Inr ''https://clerk.house.gov/Votes/2023001''"
    by code_simp
  have q: "extract_question ''<html>nothing to find</html>'' = []"
    and t: "extract_bill_title ''<html>nothing to find</html>'' = []"
    and d: "extract_date ''<html>nothing to find</html>'' = []"
    by code_simp+
  show ?thesis
    using enrich_never_raises [of "\<lambda>url. Inl RequestException" "''not a source reference''"]
      enrich_never_raises [of "\<lambda>url. Inl RequestException"
        "''https://clerk.house.gov/evs/2023/roll001.xml''"]
      enrich_never_raises [of "\<lambda>url. Inr ''<html>nothing to find</html>''"
        "''https://clerk.house.gov/evs/2023/roll001.xml''"]
      bad good q t d
    by (simp add: empty_details_def)
qed

text \<open>
  Claim C4 (as amended). For every input that the pattern does not match, the strict
  derivation of the scraper raises \<open>ValidationError\<close>, the enrichment swallows it and
  yields the empty details, and the orchestrator's own derivation raises nothing: it
  returns the input unchanged, which becomes the display URL of the finished record.
\<close>

theorem non_matching_url:
  assumes "re_search False rcv_pattern src = None"
  shows "generate_roll_call_url src = src
         \<and> generate_rcv_url src = Inl ValidationError
         \<and> extract_vote_details http_get src = Inr empty_details
         \<and> collect_vote self (member_vote\<lparr>source_data_url := src\<rparr>) =
             new_VoteRecord
               \<lparr>VoteRecord.congress = APIVoteData.congress member_vote,
                VoteRecord.date = merge_date ''1900-01-01'' (start_date member_vote),
                VoteRecord.roll_call_number = APIVoteData.roll_call_number member_vote,
                VoteRecord.legislation = legislation_of member_vote,
                VoteRecord.vote_cast = APIVoteData.vote_cast member_vote,
                VoteRecord.question = vote_question member_vote,
                VoteRecord.bill_title = [],
                VoteRecord.roll_call_vote_url = src\<rparr>"
proof -
  have url: "generate_roll_call_url src = src"
    using assms by (simp add: generate_roll_call_url_def)
  have strict: "generate_rcv_url src = Inl ValidationError"
    using assms by (simp add: generate_rcv_url_def)
  have enrich: "extract_vote_details g src = Inr empty_details" for g
    using strict sentinel_format
    by (simp add: extract_vote_details_def new_ScrapedVoteDetails_def empty_details_def)
  have "collect_vote self (member_vote\<lparr>source_data_url := src\<rparr>) =
             new_VoteRecord
               \<lparr>VoteRecord.congress = APIVoteData.congress member_vote,
                VoteRecord.date = merge_date ''1900-01-01'' (start_date member_vote),
                VoteRecord.roll_call_number = APIVoteData.roll_call_number member_vote,
                VoteRecord.legislation = legislation_of member_vote,
                VoteRecord.vote_cast = APIVoteData.vote_cast member_vote,
                VoteRecord.question = vote_question member_vote,
                VoteRecord.bill_title = [],
                VoteRecord.roll_call_vote_url = src\<rparr>"
    using url enrich [of "web_scraper self"]
    by (simp add: collect_vote_def empty_details_def merge_question_def legislation_of_def)
  with url strict enrich show ?thesis by simp
qed

theorem non_matching_url_witness:
  "generate_roll_call_url ''https://host/evs/2025/roll55.xml'' = ''https://host/evs/2025/roll55.xml''
   \<and> generate_rcv_url ''https://host/evs/2025/roll55.xml'' = Inl ValidationError
   \<and> extract_vote_details (web_scraper online_collector) ''https://host/evs/2025/roll55.xml''
       = Inr empty_details"
proof -
  have "re_search False rcv_pattern ''https://host/evs/2025/roll55.xml'' = None"
    by code_simp
  from non_matching_url [OF this, of "web_scraper online_collector"] show ?thesis by simp
qed

text \<open>
  The claim as written fails: for a matched record whose source reference the pattern
  does not match, the orchestrator builds a finished record and raises no fault.
\<close>

theorem orchestrator_url_counterexample:
  "collect_vote online_collector (doe_vote\<lparr>source_data_url := ''https://host/evs/2025/roll55.xml''\<rparr>)
     = Inr \<lparr>VoteRecord.congress = 118, VoteRecord.date = ''2023-01-03'',
            VoteRecord.roll_call_number = 1, VoteRecord.legislation = ''HR758'',
            VoteRecord.vote_cast = ''Yea'', VoteRecord.question = ''Q_API'',
            VoteRecord.bill_title = [],
            VoteRecord.roll_call_vote_url = ''https://host/evs/2025/roll55.xml''\<rparr>"
  by code_simp

section \<open>Claims about date normalization\<close>





section \<open>Claims about the merge\<close>

text \<open>
  Claim C7. For every matched raw record and the details its enrichment returned, the
  question of the finished record is the raw record's question when the enriched one is
  empty, and the enriched question otherwise.
\<close>

theorem merge_precedence_question:
  assumes "extract_vote_details (web_scraper self) (source_data_url member_vote) = Inr enriched"
    and "collect_vote self member_vote = Inr finished"
  shows "VoteRecord.question finished =
           (if ScrapedVoteDetails.question enriched = [] then vote_question member_vote
            else ScrapedVoteDetails.question enriched)"
  using assms
  by (auto simp: collect_vote_def new_VoteRecord_def merge_question_def split: if_splits)

theorem merge_precedence_question_witness:
  "(\<exists>finished. collect_vote offline_collector doe_vote = Inr finished
       \<and> VoteRecord.question finished = ''Q_API'')
   \<and> (\<exists>finished. collect_vote online_collector doe_vote = Inr finished
       \<and> VoteRecord.question finished = ''Q_SCRAPED'')"
proof -
  have e1: "extract_vote_details (web_scraper offline_collector) (source_data_url doe_vote)
              = Inr empty_details"
    by code_simp
  have c1: "collect_vote offline_collector doe_vote =
              Inr \<lparr>VoteRecord.congress = 118, VoteRecord.date = ''2023-01-03'',
                   VoteRecord.roll_call_number = 1, VoteRecord.legislation = ''HR758'',
                   VoteRecord.vote_cast = ''Yea'', VoteRecord.question = ''Q_API'',
                   VoteRecord.bill_title = [],
                   VoteRecord.roll_call_vote_url = ''https://clerk.house.gov/Votes/2023001''\<rparr>"
    by code_simp
  have e2: "extract_vote_details (web_scraper online_collector) (source_data_url doe_vote)
              = Inr \<lparr>ScrapedVoteDetails.question = ''Q_SCRAPED'',
                     ScrapedVoteDetails.bill_title = ''Some Act'',
                     ScrapedVoteDetails.date = ''2023-01-03''\<rparr>"
    by code_simp
  have c2: "collect_vote online_collector doe_vote =
              Inr \<lparr>VoteRecord.congress = 118, VoteRecord.date = ''2023-01-03'',
                   VoteRecord.roll_call_number = 1, VoteRecord.legislation = ''HR758'',
                   VoteRecord.vote_cast = ''Yea'', VoteRecord.question = ''Q_SCRAPED'',
                   VoteRecord.bill_title = ''Some Act'',
                   VoteRecord.roll_call_vote_url = ''https://clerk.house.gov/Votes/2023001''\<rparr>"
    by code_simp
  show ?thesis
    using merge_precedence_question [OF e1 c1] merge_precedence_question [OF e2 c2]
    by (simp add: c1 c2 empty_details_def)
qed

section \<open>Claims about the search criteria\<close>

text \<open>
  Claim C9 (a defect of the code). The constructor checks the length of the state before
  it strips it: a state of two characters, one of them white space, passes the check and
  is stored with one character.
\<close>

theorem search_criteria_state_stripped:
  "new_MemberSearchCriteria ''Doe'' '' a'' [118]
     = Inr \<lparr>MemberSearchCriteria.last_name = ''Doe'', MemberSearchCriteria.state = ''A'',
            MemberSearchCriteria.congress_numbers = [118]\<rparr>"
  by code_simp

section \<open>Facts about the session loop\<close>



lemma session_loop_api_error:
  assumes "consecutive_failures sc < max_consecutive_failures"
    and "\<not> cap_reached max_votes (length (session_votes sc))"
    and "api_client self cong sess (vote_number sc) = Inl (APIError code)"
  shows "session_loop self cong sess ln st max_votes sc =
           (if consecutive_failures sc + 1 < max_consecutive_failures
            then session_loop self cong sess ln st max_votes
                   (sc\<lparr>consecutive_failures := consecutive_failures sc + 1,
                       vote_number := vote_number sc + 1\<rparr>)
            else Some (Inr (sc\<lparr>consecutive_failures := consecutive_failures sc + 1,
                              vote_number := vote_number sc + 1\<rparr>)))"
  using assms by (subst session_loop.simps) (simp add: Let_def not_less)

lemma session_loop_no_match:
  assumes "consecutive_failures sc < max_consecutive_failures"
    and "\<not> cap_reached max_votes (length (session_votes sc))"
    and "api_client self cong sess (vote_number sc) = Inr api_vote_data"
    and "find_member_vote api_vote_data ln st = None"
  shows "session_loop self cong sess ln st max_votes sc =
           session_loop self cong sess ln st max_votes
             (sc\<lparr>consecutive_failures := 0, vote_number := vote_number sc + 1\<rparr>)"
  using assms by (subst session_loop.simps) simp

lemma session_loop_match:
  assumes "consecutive_failures sc < max_consecutive_failures"
    and "\<not> cap_reached max_votes (length (session_votes sc))"
    and "api_client self cong sess (vote_number sc) = Inr api_vote_data"
    and "find_member_vote api_vote_data ln st = Some member_vote"
    and "collect_vote self member_vote = Inr vote_record"
  shows "session_loop self cong sess ln st max_votes sc =
           session_loop self cong sess ln st max_votes
             (sc\<lparr>session_votes := session_votes sc @ [vote_record],
                 consecutive_failures := 0, vote_number := vote_number sc + 1\<rparr>)"
  using assms by (subst session_loop.simps) simp

lemma session_loop_record_fault:
  assumes "consecutive_failures sc < max_consecutive_failures"
    and "\<not> cap_reached max_votes (length (session_votes sc))"
    and "api_client self cong sess (vote_number sc) = Inr api_vote_data"
    and "find_member_vote api_vote_data ln st = Some member_vote"
    and "collect_vote self member_vote = Inl e"
  shows "session_loop self cong sess ln st max_votes sc = Some (Inl e)"
  using assms by (subst session_loop.simps) simp

lemma session_loop_other_fault:
  assumes "consecutive_failures sc < max_consecutive_failures"
    and "\<not> cap_reached max_votes (length (session_votes sc))"
    and "api_client self cong sess (vote_number sc) = Inl e"
    and "\<not> is_api_error e"
  shows "session_loop self cong sess ln st max_votes sc = Some (Inl e)"
  using assms by (subst session_loop.simps) (cases e; simp)

text \<open>Where a scan that returns normally stops.\<close>

lemma session_loop_stops:
  assumes "session_loop self cong sess ln st max_votes sc = Some y"
  shows "consecutive_failures sc \<le> max_consecutive_failures \<longrightarrow>
         (\<forall>sc'. y = Inr sc' \<longrightarrow>
            consecutive_failures sc' = max_consecutive_failures \<or>
            cap_reached max_votes (length (session_votes sc')))"
proof (rule session_loop.raw_induct
    [where P = "\<lambda>self cong sess ln st max_votes sc y.
       consecutive_failures sc \<le> max_consecutive_failures \<longrightarrow>
         (\<forall>sc'. y = Inr sc' \<longrightarrow>
            consecutive_failures sc' = max_consecutive_failures \<or>
            cap_reached max_votes (length (session_votes sc')))", OF _ assms], goal_cases)
  case (1 loop self cong sess ln st max_votes sc y)
  show ?case
  proof (cases "consecutive_failures sc < max_consecutive_failures")
    case False
    with 1(2) show ?thesis by auto
  next
    case lt: True
    show ?thesis
    proof (cases "cap_reached max_votes (length (session_votes sc))")
      case True
      with 1(2) lt show ?thesis by auto
    next
      case nc: False
      show ?thesis
      proof (cases "api_client self cong sess (vote_number sc)")
        case (Inr data)
        show ?thesis
        proof (cases "find_member_vote data ln st")
          case None
          with 1(2) lt nc Inr
          have "loop self cong sess ln st max_votes
                  (sc\<lparr>consecutive_failures := 0, vote_number := vote_number sc + 1\<rparr>) = Some y"
            by simp
          from 1(1) [OF this] show ?thesis by simp
        next
          case (Some mv)
          show ?thesis
          proof (cases "collect_vote self mv")
            case (Inl e)
            with 1(2) lt nc Inr Some show ?thesis by auto
          next
            case r: (Inr r)
            with 1(2) lt nc Inr Some
            have "loop self cong sess ln st max_votes
                    (sc\<lparr>session_votes := session_votes sc @ [r], consecutive_failures := 0,
                        vote_number := vote_number sc + 1\<rparr>) = Some y"
              by simp
            from 1(1) [OF this] show ?thesis by simp
          qed
        qed
      next
        case (Inl e)
        show ?thesis
        proof (cases e)
          case (APIError code)
          show ?thesis
          proof (cases "consecutive_failures sc + 1 < max_consecutive_failures")
            case True
            with 1(2) lt nc Inl APIError
            have "loop self cong sess ln st max_votes
                    (sc\<lparr>consecutive_failures := consecutive_failures sc + 1,
                        vote_number := vote_number sc + 1\<rparr>) = Some y"
              by (simp add: Let_def)
            from 1(1) [OF this] True show ?thesis by simp
          next
            case False
            with 1(2) lt nc Inl APIError show ?thesis
              by (auto simp: Let_def)
          qed
        qed (use 1(2) lt nc Inl in auto)
      qed
    qed
  qed
qed

section \<open>Claims about the scan\<close>

text \<open>
  Claim C1 (as amended). The counter's bound is 5. In every scan, an attempt is made
  only while the counter is below 5 and the cap, if any, is not reached. On an
  \<open>APIError\<close> (not-found or any other status) the counter goes up by one and the vote
  number advances by one, and the scan goes on exactly when the new counter is still below
  5: a single not-found fault never ends it. On a successful fetch the counter is reset
  to 0 and the vote number advances by one, whether a member matched (and a record was
  appended) or not. A scan that returns normally ends with the counter at 5 or with the
  cap reached.
\<close>

theorem scan_state_machine:
  "max_consecutive_failures = 5 \<and>
   (consecutive_failures sc < max_consecutive_failures \<and>
    \<not> cap_reached max_votes (length (session_votes sc)) \<longrightarrow>
      (\<forall>code. api_client self cong sess (vote_number sc) = Inl (APIError code) \<longrightarrow>
         session_loop self cong sess ln st max_votes sc =
           (if consecutive_failures sc + 1 < max_consecutive_failures
            then session_loop self cong sess ln st max_votes
                   (sc\<lparr>consecutive_failures := consecutive_failures sc + 1,
                       vote_number := vote_number sc + 1\<rparr>)
            else Some (Inr (sc\<lparr>consecutive_failures := consecutive_failures sc + 1,
                              vote_number := vote_number sc + 1\<rparr>)))) \<and>
      (\<forall>data. api_client self cong sess (vote_number sc) = Inr data \<longrightarrow>
         find_member_vote data ln st = None \<longrightarrow>
         session_loop self cong sess ln st max_votes sc =
           session_loop self cong sess ln st max_votes
             (sc\<lparr>consecutive_failures := 0, vote_number := vote_number sc + 1\<rparr>)) \<and>
      (\<forall>data member_vote vote_record.
         api_client self cong sess (vote_number sc) = Inr data \<longrightarrow>
         find_member_vote data ln st = Some member_vote \<longrightarrow>
         collect_vote self member_vote = Inr vote_record \<longrightarrow>
         session_loop self cong sess ln st max_votes sc =
           session_loop self cong sess ln st max_votes
             (sc\<lparr>session_votes := session_votes sc @ [vote_record],
                 consecutive_failures := 0, vote_number := vote_number sc + 1\<rparr>))) \<and>
   (\<forall>sc'. session_loop self cong sess ln st max_votes initial_scan = Some (Inr sc') \<longrightarrow>
      consecutive_failures sc' = max_consecutive_failures \<or>
      cap_reached max_votes (length (session_votes sc')))"
proof -
  have stop: "consecutive_failures sc' = max_consecutive_failures \<or>
              cap_reached max_votes (length (session_votes sc'))"
    if "session_loop self cong sess ln st max_votes initial_scan = Some (Inr sc')" for sc'
    using session_loop_stops [OF that] by (simp add: initial_scan_def)
  show ?thesis
    using session_loop_api_error [of sc max_votes self cong sess _ ln st]
      session_loop_no_match [of sc max_votes self cong sess _ ln st]
      session_loop_match [of sc max_votes self cong sess _ ln st]
      stop
    by (simp add: max_consecutive_failures_def)
qed

theorem scan_state_machine_witness:
  "session_loop offline_collector 118 1 ''Doe'' ''TX'' None initial_scan =
     session_loop offline_collector 118 1 ''Doe'' ''TX'' None
       \<lparr>session_votes = [doe_record], vote_number = 2, consecutive_failures = 0\<rparr>
   \<and> session_loop offline_collector 118 1 ''Roe'' ''TX'' None initial_scan =
     session_loop offline_collector 118 1 ''Roe'' ''TX'' None
       \<lparr>session_votes = [], vote_number = 2, consecutive_failures = 0\<rparr>
   \<and> session_loop offline_collector 118 1 ''Doe'' ''TX'' None
       \<lparr>session_votes = [doe_record], vote_number = 2, consecutive_failures = 0\<rparr> =
     session_loop offline_collector 118 1 ''Doe'' ''TX'' None
       \<lparr>session_votes = [doe_record], vote_number = 3, consecutive_failures = 1\<rparr>
   \<and> session_loop offline_collector 118 1 ''Doe'' ''TX'' None
       \<lparr>session_votes = [doe_record], vote_number = 6, consecutive_failures = 4\<rparr> =
     Some (Inr \<lparr>session_votes = [doe_record], vote_number = 7, consecutive_failures = 5\<rparr>)
   \<and> session_loop offline_collector 118 1 ''Doe'' ''TX'' None initial_scan =
     Some (Inr \<lparr>session_votes = [doe_record], vote_number = 7, consecutive_failures = 5\<rparr>)"
proof -
  have roe: "find_member_vote [doe_vote] ''Roe'' ''TX'' = None"
    by code_simp
  have run: "session_loop offline_collector 118 1 ''Doe'' ''TX'' None initial_scan =
     Some (Inr \<lparr>session_votes = [doe_record], vote_number = 7, consecutive_failures = 5\<rparr>)"
    by code_simp
  show ?thesis
    using scan_state_machine
        [of initial_scan None offline_collector 118 1 "''Doe''" "''TX''"]
      scan_state_machine
        [of initial_scan None offline_collector 118 1 "''Roe''" "''TX''"]
      scan_state_machine
        [of "\<lparr>session_votes = [doe_record], vote_number = 2, consecutive_failures = 0\<rparr>"
            None offline_collector 118 1 "''Doe''" "''TX''"]
      scan_state_machine
        [of "\<lparr>session_votes = [doe_record], vote_number = 6, consecutive_failures = 4\<rparr>"
            None offline_collector 118 1 "''Doe''" "''TX''"]
      find_doe roe collect_doe_offline run
    by (simp add: initial_scan_def offline_collector_def mock_api_def cap_reached_def)
qed

text \<open>
  The claim as written fails: under a cap of one record the scan stops after the first
  matching vote, with the counter at 0.
\<close>

theorem capped_scan_counterexample:
  "session_loop offline_collector 118 1 ''Doe'' ''TX'' (Some 1) initial_scan =
     Some (Inr \<lparr>session_votes = [doe_record], vote_number = 2, consecutive_failures = 0\<rparr>)"
  by code_simp

text \<open>
  Claim C8. A fault of the fetcher that is not an \<open>APIError\<close> leaves the session loop at
  once, whatever votes the loop holds; a fault of a session leaves the loop over the
  sessions, whatever votes it holds; a fault of a congress leaves the loop over the
  congresses likewise. The call ends in the fault and returns no list.
\<close>

theorem fetcher_fault_aborts_collection:
  "(\<not> is_api_error e \<and> consecutive_failures sc < max_consecutive_failures \<and>
    \<not> cap_reached max_votes (length (session_votes sc)) \<and>
    api_client self cong sess (vote_number sc) = Inl e \<longrightarrow>
      session_loop self cong sess ln st max_votes sc = Some (Inl e)) \<and>
   (session_loop self cong sess ln st max_votes initial_scan = Some (Inl e) \<longrightarrow>
      collect_session_votes self cong sess ln st max_votes = Some (Inl e)) \<and>
   (\<not> cap_reached max_votes (length congress_votes) \<and>
    collect_session_votes self cong sess ln st (remaining max_votes (length congress_votes))
      = Some (Inl e) \<longrightarrow>
      congress_loop self cong ln st max_votes (sess # sessions) congress_votes = Some (Inl e)) \<and>
   (\<not> cap_reached max_votes (length all_votes) \<and>
    collect_congress_votes self cong ln st (remaining max_votes (length all_votes))
      = Some (Inl e) \<longrightarrow>
      member_loop self ln st max_votes (cong # congresses) all_votes = Some (Inl e))"
  using session_loop_other_fault [of sc max_votes self cong sess e ln st]
  by (simp add: collect_session_votes_def)

theorem fetcher_fault_aborts_collection_witness:
  "collect_member_votes broken_collector doe_criteria None = Some (Inl ValidationError)"
proof -
  let ?sc1 = "\<lparr>session_votes = [doe_record], vote_number = 2, consecutive_failures = 0\<rparr>"
  have s1: "session_loop broken_collector 118 1 ''Doe'' ''TX'' None initial_scan =
            session_loop broken_collector 118 1 ''Doe'' ''TX'' None ?sc1"
    using session_loop_match [of initial_scan None broken_collector 118 1 "[doe_vote]"
        "''Doe''" "''TX''" doe_vote doe_record] find_doe collect_doe_broken
    by (simp add: initial_scan_def broken_collector_def broken_api_def cap_reached_def
        max_consecutive_failures_def)
  have s2: "session_loop broken_collector 118 1 ''Doe'' ''TX'' None ?sc1 = Some (Inl ValidationError)"
    using fetcher_fault_aborts_collection
      [of ValidationError ?sc1 None broken_collector 118 1 "''Doe''" "''TX''"]
    by (simp add: broken_collector_def broken_api_def cap_reached_def max_consecutive_failures_def)
  have s3: "collect_session_votes broken_collector 118 1 ''Doe'' ''TX'' None
              = Some (Inl ValidationError)"
    using fetcher_fault_aborts_collection
      [of ValidationError ?sc1 None broken_collector 118 1 "''Doe''" "''TX''"] s1 s2
    by simp
  have s4: "collect_congress_votes broken_collector 118 ''Doe'' ''TX'' None
              = Some (Inl ValidationError)"
    using fetcher_fault_aborts_collection
      [of ValidationError ?sc1 None broken_collector 118 1 "''Doe''" "''TX''" "[]" "[2]"] s3
    by (simp add: collect_congress_votes_def cap_reached_def remaining_def)
  show ?thesis
    using fetcher_fault_aborts_collection
      [of ValidationError ?sc1 None broken_collector 118 1 "''Doe''" "''TX''" "[]" "[2]" "[]" "[]"]
      s4
    by (simp add: collect_member_votes_def doe_criteria_def cap_reached_def remaining_def)
qed

section \<open>Claims about the cap\<close>























end
